theory Spec2Isabelle
  imports Main "HOL-Library.Multiset" "HOL-Library.Word" "HOL-Library.Signed_Division"
begin

section \<open>The sort engine of app/main.go\<close>

text \<open>
  The program is the instrumented service of \<^verbatim>\<open>app/main.go\<close>: the handler of
  \<^verbatim>\<open>/sort\<close> with its Prometheus metrics, spans and log lines, the generator of the
  dataset, and the merge sort that forks goroutines above a size threshold.

  The element type of the Go slices is \<^verbatim>\<open>int\<close>; the sort only compares and copies
  elements and never does arithmetic on them, so they are modelled as \<^typ>\<open>int\<close>.
  A slice is a list; \<^verbatim>\<open>items[:middle]\<close> is \<^term>\<open>take middle items\<close> and
  \<^verbatim>\<open>items[middle:]\<close> is \<^term>\<open>drop middle items\<close>. No function of the sort engine
  writes into a slice it was given (\<^verbatim>\<open>merge\<close> appends to a slice it allocates itself),
  so the sharing of backing arrays between slices is not observable.
\<close>

subsection \<open>merge\<close>

text \<open>
  The loop of \<^verbatim>\<open>merge\<close>, with its three variables \<^verbatim>\<open>i\<close>, \<^verbatim>\<open>j\<close> and \<^verbatim>\<open>result\<close>:
  \<^verbatim>\<open>for i < len(left) && j < len(right) { if left[i] <= right[j] {...} else {...} }\<close>,
  followed by the two appends of the remainders \<^verbatim>\<open>left[i:]\<close> and \<^verbatim>\<open>right[j:]\<close>.
  Both index reads are guarded by the loop condition.
\<close>

function merge_loop :: "int list \<Rightarrow> int list \<Rightarrow> nat \<Rightarrow> nat \<Rightarrow> int list \<Rightarrow> int list" where
  "merge_loop left right i j result =
     (if i < length left \<and> j < length right then
        (if left ! i \<le> right ! j
         then merge_loop left right (Suc i) j (result @ [left ! i])
         else merge_loop left right i (Suc j) (result @ [right ! j]))
      else (result @ drop i left) @ drop j right)"
  by pat_completeness auto
termination
  by (relation "measure (\<lambda>(left, right, i, j, result). (length left - i) + (length right - j))") auto

definition merge :: "int list \<Rightarrow> int list \<Rightarrow> int list" where
  "merge left right = merge_loop left right 0 0 []"

subsection \<open>mergeSort\<close>

function mergeSort :: "int list \<Rightarrow> int list" where
  "mergeSort items =
     (let n = length items in
      if n \<le> 1 then items
      else (let middle = n div 2 in
            merge (mergeSort (take middle items)) (mergeSort (drop middle items))))"
  by pat_completeness auto
termination
  by (relation "measure length") auto

subsection \<open>parallelMergeSort\<close>

definition threshold :: nat where
  "threshold = 100000"

text \<open>
  The call tree of one run of \<^verbatim>\<open>parallelMergeSort\<close>. Every node carries
  \<^verbatim>\<open>len(items)\<close> of its call.
  \<^item> \<open>Direct n\<close>: \<^verbatim>\<open>n <= 1\<close>, the slice is returned as it is;
  \<^item> \<open>Sequential n\<close>: \<^verbatim>\<open>n <= threshold\<close>, the call returns \<^verbatim>\<open>mergeSort(items)\<close>,
    computed in the calling goroutine;
  \<^item> \<open>ForkJoin n l r\<close>: two goroutines were started with \<^verbatim>\<open>go\<close>, one per half,
    and joined by \<^verbatim>\<open>wg.Wait()\<close>; \<open>l\<close> and \<open>r\<close> are the call trees of the two
    goroutines.
\<close>

datatype task = Direct nat | Sequential nat | ForkJoin nat task task

fun goroutines :: "task \<Rightarrow> nat" where
  "goroutines (Direct n) = 0"
| "goroutines (Sequential n) = 0"
| "goroutines (ForkJoin n l r) = 2 + goroutines l + goroutines r"

fun fanout_levels :: "task \<Rightarrow> nat" where
  "fanout_levels (Direct n) = 0"
| "fanout_levels (Sequential n) = 0"
| "fanout_levels (ForkJoin n l r) = 1 + max (fanout_levels l) (fanout_levels r)"

text \<open>
  The variables the two goroutines share with the spawning call: \<^verbatim>\<open>left\<close>,
  \<^verbatim>\<open>right\<close> (both \<^verbatim>\<open>nil\<close> when declared) and the counter of the
  \<^verbatim>\<open>sync.WaitGroup\<close>. Each goroutine writes its own variable once, with the
  result of its recursive call, and then runs its deferred \<^verbatim>\<open>wg.Done()\<close>.
\<close>

record join_state =
  left :: "int list"
  right :: "int list"
  wg :: nat

definition go_left :: "int list \<Rightarrow> join_state \<Rightarrow> join_state" where
  "go_left sorted_half s = s\<lparr>left := sorted_half, wg := wg s - 1\<rparr>"

definition go_right :: "int list \<Rightarrow> join_state \<Rightarrow> join_state" where
  "go_right sorted_half s = s\<lparr>right := sorted_half, wg := wg s - 1\<rparr>"

text \<open>
  The Go scheduler decides which goroutine finishes first. A schedule gives that
  decision for every fork of the call tree, the fork being named by its path from the
  root (\<open>False\<close> for the goroutine of the left half, \<open>True\<close> for the right one);
  \<open>True\<close> at a fork means that the goroutine of the left half writes first.
\<close>

type_synonym schedule = "bool list \<Rightarrow> bool"

definition run_goroutines :: "bool \<Rightarrow> int list \<Rightarrow> int list \<Rightarrow> join_state" where
  "run_goroutines left_first l r =
     (let s = \<lparr>left = [], right = [], wg = 2\<rparr> in
      if left_first then go_right r (go_left l s) else go_left l (go_right r s))"

text \<open>
  \<^verbatim>\<open>wg.Wait()\<close> returns once the counter is zero and blocks otherwise; a call that
  blocks forever has no result.
\<close>

definition wait :: "join_state \<Rightarrow> join_state option" where
  "wait s = (if wg s = 0 then Some s else None)"

function parallelMergeSort :: "schedule \<Rightarrow> int list \<Rightarrow> (int list \<times> task) option" where
  "parallelMergeSort sched items =
     (let n = length items in
      if n \<le> 1 then Some (items, Direct n)
      else if n \<le> threshold then Some (mergeSort items, Sequential n)
      else (let middle = n div 2 in
            case parallelMergeSort (\<lambda>p. sched (False # p)) (take middle items) of
              None \<Rightarrow> None
            | Some (l, lt) \<Rightarrow>
               (case parallelMergeSort (\<lambda>p. sched (True # p)) (drop middle items) of
                  None \<Rightarrow> None
                | Some (r, rt) \<Rightarrow>
                   (case wait (run_goroutines (sched []) l r) of
                      None \<Rightarrow> None
                    | Some s \<Rightarrow> Some (merge (left s) (right s), ForkJoin n lt rt)))))"
  by pat_completeness auto
termination
  by (relation "measure (\<lambda>(sched, items). length items)") (auto simp: threshold_def)

text \<open>A schedule for concrete runs: at every fork the goroutine of the left half writes first.\<close>

definition left_always_first :: schedule where
  "left_always_first p = True"

section \<open>The dataset generator of app/main.go\<close>

datatype failure = RuntimePanic | BlockedForever

text \<open>
  Modelled from the documentation of \<^verbatim>\<open>math/rand\<close>, which is not part of the
  repository: \<^verbatim>\<open>rand.Intn(n)\<close> returns a non-negative pseudo-random number in the
  half-open interval \<open>[0, n)\<close> from the default source and panics if \<open>n \<le> 0\<close>.
  The state of the source is the sequence of raw values it is still going to deliver;
  nothing is assumed about them. Reducing a raw value modulo \<open>n\<close> lets every value of
  \<open>[0, n)\<close> occur and no other.
\<close>

type_synonym rand_source = "nat \<Rightarrow> nat"

definition Intn :: "int \<Rightarrow> rand_source \<Rightarrow> failure + (int \<times> rand_source)" where
  "Intn n g = (if n \<le> 0 then Inl RuntimePanic
               else Inr (int (g 0) mod n, \<lambda>k. g (Suc k)))"

text \<open>
  The loop of \<^verbatim>\<open>generateRandomNumbers\<close>:
  \<^verbatim>\<open>for i := 0; i < size; i++ { numbers[i] = rand.Intn(20000) }\<close>.
  A write outside the slice is a run-time panic in Go.
\<close>

function generate_loop ::
    "int \<Rightarrow> int \<Rightarrow> int list \<Rightarrow> rand_source \<Rightarrow> failure + (int list \<times> rand_source)" where
  "generate_loop sz i numbers g =
     (if i < sz then
        (case Intn 20000 g of
           Inl f \<Rightarrow> Inl f
         | Inr (v, g') \<Rightarrow>
             if 0 \<le> i \<and> nat i < length numbers
             then generate_loop sz (i + 1) (numbers[nat i := v]) g'
             else Inl RuntimePanic)
      else Inr (numbers, g))"
  by pat_completeness auto
termination
  by (relation "measure (\<lambda>(sz, i, numbers, g). nat (sz - i))") auto

text \<open>
  Modelled from the Go runtime, which is not part of the repository.
  \<^verbatim>\<open>make([]int, size)\<close> with a \<^verbatim>\<open>size\<close> that is not a constant is the runtime's
  \<^verbatim>\<open>makeslice\<close>: it panics (\<^verbatim>\<open>len out of range\<close>) when \<^verbatim>\<open>size\<close> is negative
  or when the \<^verbatim>\<open>size\<close> elements of 8 bytes each exceed \<^verbatim>\<open>maxAlloc\<close>, the largest
  allocation the runtime accepts: \<open>2 ^ 48\<close> bytes on the 64-bit Linux platforms the
  service is built for. Otherwise it gives \<^verbatim>\<open>size\<close> zeros. (An allocation the runtime
  accepts and the machine cannot provide ends the process; the model has no bound on the
  memory of the machine.)
\<close>

definition maxAlloc :: int where
  "maxAlloc = 2 ^ 48"

text \<open>
  The parameter \<^verbatim>\<open>size\<close> is a Go \<^verbatim>\<open>int\<close>, 64 bits wide and signed. The loop counter
  \<^verbatim>\<open>i\<close> stays below \<^verbatim>\<open>size\<close>, so \<^verbatim>\<open>i++\<close> never wraps.
\<close>

definition generateRandomNumbers ::
    "64 word \<Rightarrow> rand_source \<Rightarrow> failure + (int list \<times> rand_source)" where
  "generateRandomNumbers size64 g =
     (let sz = sint size64 in
      if sz < 0 \<or> maxAlloc < 8 * sz then Inl RuntimePanic
      else generate_loop sz 0 (replicate (nat sz) 0) g)"

text \<open>A source for concrete runs: the raw values 7, 20008, 40009, ...\<close>

definition sample_source :: rand_source where
  "sample_source k = 20001 * k + 7"

section \<open>The request handler of app/main.go\<close>

subsection \<open>The request id: \<^verbatim>\<open>fmt.Sprintf("%d", ...)\<close> and \<^verbatim>\<open>strconv.ParseInt\<close>\<close>

text \<open>
  Modelled from the Go standard library, which is not part of the repository.
  \<^verbatim>\<open>fmt.Sprintf("%d", x)\<close> of an \<^verbatim>\<open>int64\<close> is its decimal representation, with a
  leading minus sign for a negative value.
\<close>

definition digit_char :: "nat \<Rightarrow> char" where
  "digit_char d = char_of (48 + d)"

function digits :: "nat \<Rightarrow> string" where
  "digits n = (if n < 10 then [digit_char n] else digits (n div 10) @ [digit_char (n mod 10)])"
  by pat_completeness auto
termination
  by (relation "measure id") auto

definition Sprintf_d :: "int \<Rightarrow> string" where
  "Sprintf_d x = (if x < 0 then CHR ''-'' # digits (nat (- x)) else digits (nat x))"

text \<open>
  \<^verbatim>\<open>strconv.ParseInt(s, 10, 64)\<close>: an optional sign, then \<^verbatim>\<open>ParseUint\<close> on the rest.
  \<^verbatim>\<open>ParseUint\<close> reads the bytes from the left; a byte that is not a decimal digit is a
  syntax error with value 0, an overflow of \<^verbatim>\<open>uint64\<close> is a range error with the
  largest value. \<^verbatim>\<open>ParseInt\<close> turns a syntax error into the value 0 and clamps a value
  outside \<^verbatim>\<open>int64\<close>.
\<close>

datatype num_error = ErrSyntax | ErrRange

definition digit_val :: "char \<Rightarrow> nat option" where
  "digit_val c = (let v = of_char c :: nat in
                  if 48 \<le> v \<and> v \<le> 57 then Some (v - 48) else None)"

definition maxUint64 :: nat where
  "maxUint64 = 2 ^ 64 - 1"

fun ParseUint_loop :: "nat \<Rightarrow> string \<Rightarrow> nat \<times> num_error option" where
  "ParseUint_loop n [] = (n, None)"
| "ParseUint_loop n (c # cs) =
     (case digit_val c of
        None \<Rightarrow> (0, Some ErrSyntax)
      | Some d \<Rightarrow>
          if n \<ge> maxUint64 div 10 + 1 then (maxUint64, Some ErrRange)
          else (let n1 = n * 10 + d in
                if n1 > maxUint64 then (maxUint64, Some ErrRange)
                else ParseUint_loop n1 cs))"

definition ParseUint :: "string \<Rightarrow> nat \<times> num_error option" where
  "ParseUint s = (if s = [] then (0, Some ErrSyntax) else ParseUint_loop 0 s)"

definition ParseInt :: "string \<Rightarrow> int \<times> num_error option" where
  "ParseInt s =
     (if s = [] then (0, Some ErrSyntax)
      else (let neg = (hd s = CHR ''-'');
                s1 = (if hd s = CHR ''+'' \<or> hd s = CHR ''-'' then tl s else s);
                (un, err) = ParseUint s1
            in if err = Some ErrSyntax then (0, err)
               else if \<not> neg \<and> un \<ge> 2 ^ 63 then (2 ^ 63 - 1, Some ErrRange)
               else if neg \<and> un > 2 ^ 63 then (- (2 ^ 63), Some ErrRange)
               else (if neg then - int un else int un, None)))"

subsection \<open>What the handler reads and writes\<close>

text \<open>
  Of the \<^verbatim>\<open>*http.Request\<close> the handler reads the method only.
\<close>

record request =
  Method :: string

definition MethodGet :: string where
  "MethodGet = ''GET''"

definition StatusOK :: int where
  "StatusOK = 200"

definition StatusBadRequest :: int where
  "StatusBadRequest = 400"

definition StatusMethodNotAllowed :: int where
  "StatusMethodNotAllowed = 405"

text \<open>
  What one call of the handler reads from outside the program: whether the global
  \<^verbatim>\<open>tracer\<close> is set (\<^verbatim>\<open>initTracer\<close> succeeded), the value of
  \<^verbatim>\<open>time.Now().UnixNano()\<close> when the request id is made (an \<^verbatim>\<open>int64\<close>), the
  \<^verbatim>\<open>time.Duration\<close> (in nanoseconds) that \<^verbatim>\<open>time.Since(startTime)\<close> returns after
  the sort, and the schedule of the sort's goroutines.
\<close>

record env =
  tracer :: bool
  now :: "64 word"
  since :: int
  scheduler :: schedule

text \<open>
  Strings that the handler gets from a formatting function of the library are kept
  symbolic: \<open>Duration_String d\<close> is \<^verbatim>\<open>d.String()\<close> of the \<^verbatim>\<open>time.Duration\<close>
  \<open>d\<close>, \<open>Sprintf_v xs\<close> is \<^verbatim>\<open>fmt.Sprintf("%v", xs)\<close> of a slice, and
  the attribute value \<open>AFloat64_Seconds d\<close> is the \<^verbatim>\<open>float64\<close> \<^verbatim>\<open>d.Seconds()\<close>.
  A log message is the list of its pieces.
\<close>

datatype gostring = Literal string | Duration_String int | Sprintf_v "int list"

record Response =
  RequestID :: string
  Status :: string
  Duration :: gostring

record response_writer =
  header :: "(string \<times> string) list"
  status_code :: "int option"
  body :: "Response list"

datatype attr_value = AString gostring | AInt int | AFloat64_Seconds int

datatype span_op =
    Start string
  | End string
  | SetAttributes string string attr_value
  | AddEvent string string "(string \<times> attr_value) list"

datatype level = InfoLevel | WarnLevel

record entry =
  requestID_field :: string
  status_field :: "int option"
  entry_level :: level
  msg :: "gostring list"

datatype call = Call_generateRandomNumbers int | Call_parallelMergeSort "int list"

text \<open>
  The state of the process that outlives a request: the four Prometheus metrics (a
  counter is the number of its \<^verbatim>\<open>Inc()\<close> calls, the gauge is the value last set, the
  histogram is the list of the durations observed, in nanoseconds), the operations on
  spans handed to the tracer, the log entries written, and the source of
  \<^verbatim>\<open>math/rand\<close>. The field \<open>calls\<close> is not a variable of the program: it records the
  calls of \<^verbatim>\<open>generateRandomNumbers\<close> and \<^verbatim>\<open>parallelMergeSort\<close> the handler makes,
  with their arguments.
\<close>

record server =
  sortRequests :: nat
  errorCounter :: nat
  arraySize :: int
  sortDuration :: "int list"
  spans :: "span_op list"
  logs :: "entry list"
  rand_src :: rand_source
  calls :: "call list"

definition span :: "bool \<Rightarrow> span_op \<Rightarrow> server \<Rightarrow> server" where
  "span tracing operation s = (if tracing then s\<lparr>spans := spans s @ [operation]\<rparr> else s)"

definition logger :: "string \<Rightarrow> level \<Rightarrow> int option \<Rightarrow> gostring list \<Rightarrow> server \<Rightarrow> server" where
  "logger requestID lvl st m s =
     s\<lparr>logs := logs s @ [\<lparr>requestID_field = requestID, status_field = st,
                           entry_level = lvl, msg = m\<rparr>]\<rparr>"

definition Header_Set :: "string \<Rightarrow> string \<Rightarrow> response_writer \<Rightarrow> response_writer" where
  "Header_Set k v w = w\<lparr>header := (k, v) # filter (\<lambda>p. fst p \<noteq> k) (header w)\<rparr>"

text \<open>
  \<^verbatim>\<open>WriteHeader\<close> sends the status line; a second call does not change it.
\<close>

definition WriteHeader :: "int \<Rightarrow> response_writer \<Rightarrow> response_writer" where
  "WriteHeader c w = (case status_code w of None \<Rightarrow> w\<lparr>status_code := Some c\<rparr> | Some _ \<Rightarrow> w)"

text \<open>
  \<^verbatim>\<open>json.NewEncoder(w).Encode(v)\<close> writes the JSON of \<open>v\<close> to the body; a write
  before \<^verbatim>\<open>WriteHeader\<close> sends status 200 first.
\<close>

definition Encode :: "Response \<Rightarrow> response_writer \<Rightarrow> response_writer" where
  "Encode v w = (WriteHeader StatusOK w)\<lparr>body := body w @ [v]\<rparr>"

text \<open>
  The slice expression \<^verbatim>\<open>xs[:k]\<close> panics when \<open>k\<close> exceeds the capacity of
  \<open>xs\<close>. The two slices the handler cuts (the result of \<^verbatim>\<open>make([]int, size)\<close> and
  the result of \<^verbatim>\<open>merge\<close>, which fills its slice to the capacity it was made with)
  have a capacity equal to their length.
\<close>

definition slice_to :: "nat \<Rightarrow> int list \<Rightarrow> failure + int list" where
  "slice_to k xs = (if k \<le> length xs then Inr (take k xs) else Inl RuntimePanic)"

definition size_const :: int where
  "size_const = 20000"

subsection \<open>sortHandler\<close>

text \<open>
  The two rejections of the handler have the same shape: set the content type, log a
  warning with the status, set two attributes on the request's span, write the status
  and the error body, count the error and return; the deferred \<^verbatim>\<open>span.End()\<close> runs
  at the return.
\<close>

definition reject ::
    "bool \<Rightarrow> string \<Rightarrow> int \<Rightarrow> string \<Rightarrow> string \<Rightarrow> response_writer \<Rightarrow> server
      \<Rightarrow> response_writer \<times> server" where
  "reject tracing requestID st warning err w s =
     (let w1 = Header_Set ''Content-Type'' ''application/json'' w;
          s1 = logger requestID WarnLevel (Some st) [Literal warning] s;
          s2 = span tracing (SetAttributes ''sort-handler'' ''http.status_code'' (AInt st)) s1;
          s3 = span tracing (SetAttributes ''sort-handler'' ''error'' (AString (Literal err))) s2;
          w2 = WriteHeader st w1;
          w3 = Encode \<lparr>RequestID = requestID, Status = ''error'', Duration = Literal []\<rparr> w2;
          s4 = s3\<lparr>errorCounter := errorCounter s3 + 1\<rparr>
      in (w3, span tracing (End ''sort-handler'') s4))"

text \<open>
  The rest of the handler, from \<^verbatim>\<open>const size = 20000\<close> on, for a request that was
  not rejected.
\<close>

definition accept ::
    "env \<Rightarrow> string \<Rightarrow> response_writer \<Rightarrow> server \<Rightarrow> failure + (response_writer \<times> server)" where
  "accept e requestID w s =
     (let tracing = tracer e;
          s1 = s\<lparr>arraySize := size_const\<rparr>;
          s2 = span tracing (SetAttributes ''sort-handler'' ''array.size'' (AInt size_const)) s1;
          s3 = span tracing (Start ''generate-random-numbers'') s2;
          s4 = s3\<lparr>calls := calls s3 @ [Call_generateRandomNumbers size_const]\<rparr>
      in case generateRandomNumbers (word_of_int size_const) (rand_src s4) of
           Inl f \<Rightarrow> Inl f
         | Inr (numbers, g) \<Rightarrow>
            (let s5 = span tracing (End ''generate-random-numbers'') (s4\<lparr>rand_src := g\<rparr>)
             in case slice_to 10 numbers of
                  Inl f \<Rightarrow> Inl f
                | Inr unsorted10 \<Rightarrow>
                   (let s6 = logger requestID InfoLevel None
                               [Literal ''Unsorted (first 10): '', Sprintf_v unsorted10] s5;
                        s7 = span tracing (AddEvent ''sort-handler'' ''unsorted-array-ready''
                               [(''first_10_elements'', AString (Sprintf_v unsorted10))]) s6;
                        s8 = span tracing (Start ''parallel-merge-sort'') s7;
                        s9 = s8\<lparr>calls := calls s8 @ [Call_parallelMergeSort numbers]\<rparr>
                    in case parallelMergeSort (scheduler e) numbers of
                         None \<Rightarrow> Inl BlockedForever
                       | Some (sortedNumbers, call_tree) \<Rightarrow>
                          (let duration = since e;
                               s10 = span tracing (SetAttributes ''parallel-merge-sort''
                                       ''duration_seconds'' (AFloat64_Seconds duration)) s9;
                               s11 = span tracing (End ''parallel-merge-sort'') s10;
                               s12 = s11\<lparr>sortDuration := sortDuration s11 @ [duration]\<rparr>
                           in case slice_to 10 sortedNumbers of
                                Inl f \<Rightarrow> Inl f
                              | Inr sorted10 \<Rightarrow>
                                 (let s13 = logger requestID InfoLevel None
                                              [Literal ''Sorted (first 10): '', Sprintf_v sorted10] s12;
                                      s14 = logger requestID InfoLevel None
                                              [Literal ''Finished sorting in '', Duration_String duration] s13;
                                      s15 = span tracing (AddEvent ''sort-handler'' ''sorted-array-ready''
                                              [(''first_10_elements'', AString (Sprintf_v sorted10)),
                                               (''duration'', AString (Duration_String duration))]) s14;
                                      w1 = Header_Set ''Content-Type'' ''application/json'' w;
                                      s16 = logger requestID InfoLevel (Some StatusOK)
                                              [Literal ''Request completed''] s15;
                                      s17 = span tracing (SetAttributes ''sort-handler''
                                              ''http.status_code'' (AInt StatusOK)) s16;
                                      w2 = WriteHeader StatusOK w1;
                                      w3 = Encode \<lparr>RequestID = requestID, Status = ''success'',
                                                   Duration = Duration_String duration\<rparr> w2
                                  in Inr (w3, span tracing (End ''sort-handler'') s17))))))"

definition sortHandler :: "env \<Rightarrow> request \<Rightarrow> server \<Rightarrow> failure + (response_writer \<times> server)" where
  "sortHandler e r s =
     (let w = \<lparr>header = [], status_code = None, body = []\<rparr>;
          s1 = span (tracer e) (Start ''sort-handler'') s;
          requestID = Sprintf_d (sint (now e));
          s2 = logger requestID InfoLevel None [Literal ''Received sort request''] s1;
          s3 = span (tracer e) (SetAttributes ''sort-handler'' ''request.id''
                 (AString (Literal requestID))) s2;
          s4 = s3\<lparr>sortRequests := sortRequests s3 + 1\<rparr>
      in if Method r \<noteq> MethodGet then
           Inr (reject (tracer e) requestID StatusMethodNotAllowed
                  ''Method not allowed'' ''method not allowed'' w s4)
         else (let requestIDInt = fst (ParseInt requestID) in
               if requestIDInt smod 2 = 0 then
                 Inr (reject (tracer e) requestID StatusBadRequest
                        ''Request is even'' ''request id is even'' w s4)
               else accept e requestID w s4))"

text \<open>The status code and the body a call of the handler leaves in the response.\<close>

definition response_status :: "failure + (response_writer \<times> server) \<Rightarrow> int option" where
  "response_status res = (case res of Inl f \<Rightarrow> None | Inr (w, s) \<Rightarrow> status_code w)"

definition response_body :: "failure + (response_writer \<times> server) \<Rightarrow> Response list" where
  "response_body res = (case res of Inl f \<Rightarrow> [] | Inr (w, s) \<Rightarrow> body w)"

definition final_state :: "failure + (response_writer \<times> server) \<Rightarrow> server option" where
  "final_state res = (case res of Inl f \<Rightarrow> None | Inr (w, s) \<Rightarrow> Some s)"

text \<open>Inputs for concrete runs.\<close>

definition sample_env :: "64 word \<Rightarrow> env" where
  "sample_env t = \<lparr>tracer = True, now = t, since = 1500000, scheduler = left_always_first\<rparr>"

definition sample_server :: server where
  "sample_server = \<lparr>sortRequests = 41, errorCounter = 20, arraySize = 0, sortDuration = [],
                     spans = [], logs = [], rand_src = sample_source, calls = []\<rparr>"

section \<open>Properties of the sort engine\<close>

declare merge_loop.simps [simp del]
declare mergeSort.simps [simp del]
declare parallelMergeSort.simps [simp del]

lemma merge_loop_left:
  "i < length l \<Longrightarrow> j < length r \<Longrightarrow> l ! i \<le> r ! j \<Longrightarrow>
   merge_loop l r i j res = merge_loop l r (Suc i) j (res @ [l ! i])"
  by (subst merge_loop.simps) simp

lemma merge_loop_right:
  "i < length l \<Longrightarrow> j < length r \<Longrightarrow> \<not> l ! i \<le> r ! j \<Longrightarrow>
   merge_loop l r i j res = merge_loop l r i (Suc j) (res @ [r ! j])"
  by (subst merge_loop.simps) simp

lemma merge_loop_exit:
  "\<not> (i < length l \<and> j < length r) \<Longrightarrow>
   merge_loop l r i j res = (res @ drop i l) @ drop j r"
  by (subst merge_loop.simps) (simp only: if_False)

lemma mset_merge_loop:
  "mset (merge_loop l r i j res) = mset res + mset (drop i l) + mset (drop j r)"
proof (induction l r i j res rule: merge_loop.induct)
  case (1 l r i j res)
  show ?case
  proof (cases "i < length l \<and> j < length r")
    case True
    then have dl: "drop i l = l ! i # drop (Suc i) l" and dr: "drop j r = r ! j # drop (Suc j) r"
      by (simp_all add: Cons_nth_drop_Suc)
    show ?thesis
    proof (cases "l ! i \<le> r ! j")
      case le: True
      have "mset (merge_loop l r i j res) = mset (merge_loop l r (Suc i) j (res @ [l ! i]))"
        using True le by (simp add: merge_loop_left)
      also have "\<dots> = mset (res @ [l ! i]) + mset (drop (Suc i) l) + mset (drop j r)"
        using "1.IH"(1) True le by simp
      finally show ?thesis by (simp add: dl)
    next
      case gt: False
      have "mset (merge_loop l r i j res) = mset (merge_loop l r i (Suc j) (res @ [r ! j]))"
        using True gt by (simp add: merge_loop_right)
      also have "\<dots> = mset (res @ [r ! j]) + mset (drop i l) + mset (drop (Suc j) r)"
        using "1.IH"(2) True gt by simp
      finally show ?thesis by (simp add: dr)
    qed
  next
    case False
    then show ?thesis by (auto simp: merge_loop_exit)
  qed
qed

lemma set_merge_loop:
  "set (merge_loop l r i j res) = set res \<union> set (drop i l) \<union> set (drop j r)"
proof -
  have "set_mset (mset (merge_loop l r i j res)) = set_mset (mset res + mset (drop i l) + mset (drop j r))"
    by (simp only: mset_merge_loop)
  then show ?thesis by simp
qed

lemma sorted_merge_loop:
  "sorted l \<Longrightarrow> sorted r \<Longrightarrow> sorted res \<Longrightarrow>
   (\<forall>x\<in>set res. \<forall>y\<in>set (drop i l) \<union> set (drop j r). x \<le> y) \<Longrightarrow>
   sorted (merge_loop l r i j res)"
proof (induction l r i j res rule: merge_loop.induct)
  case (1 l r i j res)
  show ?case
  proof (cases "i < length l \<and> j < length r")
    case True
    then have dl: "drop i l = l ! i # drop (Suc i) l" and dr: "drop j r = r ! j # drop (Suc j) r"
      by (simp_all add: Cons_nth_drop_Suc)
    have sl: "sorted (drop i l)" and sr: "sorted (drop j r)"
      using "1.prems" by (simp_all add: sorted_wrt_drop)
    have li: "\<forall>y\<in>set (drop (Suc i) l). l ! i \<le> y"
      using sl by (simp add: dl)
    have rj: "\<forall>y\<in>set (drop (Suc j) r). r ! j \<le> y"
      using sr by (simp add: dr)
    have res_li: "\<forall>x\<in>set res. x \<le> l ! i" and res_rj: "\<forall>x\<in>set res. x \<le> r ! j"
      using "1.prems"(4) by (simp_all add: dl dr)
    show ?thesis
    proof (cases "l ! i \<le> r ! j")
      case le: True
      have "sorted (merge_loop l r (Suc i) j (res @ [l ! i]))"
      proof (rule "1.IH"(1) [OF True le "1.prems"(1) "1.prems"(2)])
        show "sorted (res @ [l ! i])"
          using "1.prems"(3) res_li by (simp add: sorted_append)
        show "\<forall>x\<in>set (res @ [l ! i]). \<forall>y\<in>set (drop (Suc i) l) \<union> set (drop j r). x \<le> y"
          using "1.prems"(4) li rj le by (auto simp: dl dr)
      qed
      then show ?thesis using True le by (simp add: merge_loop_left)
    next
      case gt: False
      have "sorted (merge_loop l r i (Suc j) (res @ [r ! j]))"
      proof (rule "1.IH"(2) [OF True gt "1.prems"(1) "1.prems"(2)])
        show "sorted (res @ [r ! j])"
          using "1.prems"(3) res_rj by (simp add: sorted_append)
        show "\<forall>x\<in>set (res @ [r ! j]). \<forall>y\<in>set (drop i l) \<union> set (drop (Suc j) r). x \<le> y"
          using "1.prems"(4) li rj gt by (auto simp: dl dr)
      qed
      then show ?thesis using True gt by (simp add: merge_loop_right)
    qed
  next
    case False
    have sl: "sorted (drop i l)" and sr: "sorted (drop j r)"
      using "1.prems" by (simp_all add: sorted_wrt_drop)
    from False have "drop i l = [] \<or> drop j r = []" by auto
    then have "sorted ((res @ drop i l) @ drop j r)"
      using "1.prems"(3,4) sl sr by (auto simp: sorted_append)
    then show ?thesis using False by (simp add: merge_loop_exit)
  qed
qed

lemma mset_merge: "mset (merge l r) = mset l + mset r"
  by (simp add: merge_def mset_merge_loop)

lemma sorted_merge: "sorted l \<Longrightarrow> sorted r \<Longrightarrow> sorted (merge l r)"
  by (simp add: merge_def sorted_merge_loop)

lemma mergeSort_unfold:
  "1 < length items \<Longrightarrow>
   mergeSort items = merge (mergeSort (take (length items div 2) items))
                           (mergeSort (drop (length items div 2) items))"
  by (subst mergeSort.simps) (simp add: Let_def)

lemma mergeSort_small: "length items \<le> 1 \<Longrightarrow> mergeSort items = items"
  by (subst mergeSort.simps) (simp add: Let_def)

lemma mset_mergeSort: "mset (mergeSort items) = mset items"
proof (induction items rule: mergeSort.induct)
  case (1 items)
  show ?case
  proof (cases "length items \<le> 1")
    case True
    then show ?thesis by (simp add: mergeSort_small)
  next
    case False
    then have big: "1 < length items" by simp
    have "mset (mergeSort items) =
          mset (take (length items div 2) items) + mset (drop (length items div 2) items)"
      using "1.IH" [OF refl False refl] by (simp add: mergeSort_unfold [OF big] mset_merge)
    also have "\<dots> = mset (take (length items div 2) items @ drop (length items div 2) items)"
      by (simp only: mset_append)
    finally show ?thesis by simp
  qed
qed

lemma sorted_mergeSort: "sorted (mergeSort items)"
proof (induction items rule: mergeSort.induct)
  case (1 items)
  show ?case
  proof (cases "length items \<le> 1")
    case True
    then have "sorted items" by (cases items) (auto simp: length_Suc_conv)
    with True show ?thesis by (simp add: mergeSort_small)
  next
    case False
    then have big: "1 < length items" by simp
    show ?thesis
      using "1.IH" [OF refl False refl] by (simp add: mergeSort_unfold [OF big] sorted_merge)
  qed
qed

lemma wait_run_goroutines:
  "wait (run_goroutines b l r) = Some \<lparr>left = l, right = r, wg = 0\<rparr>"
  by (cases b) (simp_all add: wait_def run_goroutines_def go_left_def go_right_def Let_def)

lemma parallelMergeSort_direct:
  "length items \<le> 1 \<Longrightarrow> parallelMergeSort sched items = Some (items, Direct (length items))"
  by (subst parallelMergeSort.simps) (simp add: Let_def)

lemma parallelMergeSort_sequential:
  "1 < length items \<Longrightarrow> length items \<le> threshold \<Longrightarrow>
   parallelMergeSort sched items = Some (mergeSort items, Sequential (length items))"
  by (subst parallelMergeSort.simps) (simp add: Let_def)

lemma parallelMergeSort_fork:
  assumes "threshold < length items"
    and "parallelMergeSort (\<lambda>p. sched (False # p)) (take (length items div 2) items) = Some (l, lt)"
    and "parallelMergeSort (\<lambda>p. sched (True # p)) (drop (length items div 2) items) = Some (r, rt)"
  shows "parallelMergeSort sched items = Some (merge l r, ForkJoin (length items) lt rt)"
proof -
  have "\<not> length items \<le> 1" using assms(1) by (simp add: threshold_def)
  moreover have "\<not> length items \<le> threshold" using assms(1) by simp
  ultimately show ?thesis
    by (subst parallelMergeSort.simps) (simp add: Let_def assms(2,3) wait_run_goroutines)
qed

lemma parallelMergeSort_returns_mergeSort:
  "\<exists>t. parallelMergeSort sched items = Some (mergeSort items, t)"
proof (induction sched items rule: parallelMergeSort.induct)
  case (1 sched items)
  let ?n = "length items"
  consider (direct) "?n \<le> 1" | (seq) "1 < ?n" "?n \<le> threshold" | (fork) "threshold < ?n"
    by linarith
  then show ?case
  proof cases
    case direct
    then show ?thesis by (simp add: parallelMergeSort_direct mergeSort_small)
  next
    case seq
    then show ?thesis by (simp add: parallelMergeSort_sequential)
  next
    case fork
    then have n1: "\<not> ?n \<le> 1" and nt: "\<not> ?n \<le> threshold" and big: "1 < ?n"
      by (simp_all add: threshold_def)
    obtain lt where l: "parallelMergeSort (\<lambda>p. sched (False # p)) (take (?n div 2) items)
        = Some (mergeSort (take (?n div 2) items), lt)"
      using "1.IH"(1) [OF refl n1 nt refl] by blast
    obtain rt where r: "parallelMergeSort (\<lambda>p. sched (True # p)) (drop (?n div 2) items)
        = Some (mergeSort (drop (?n div 2) items), rt)"
      using "1.IH"(2) [OF refl n1 nt refl l refl] by blast
    show ?thesis
      using parallelMergeSort_fork [OF fork l r] by (simp add: mergeSort_unfold [OF big])
  qed
qed

lemma sorted_mset_unique:
  fixes xs ys :: "int list"
  shows "sorted xs \<Longrightarrow> sorted ys \<Longrightarrow> mset xs = mset ys \<Longrightarrow> xs = ys"
  using properties_for_sort by blast

text \<open>
  Claim C1. For every list of integers \<open>D\<close>, both \<^verbatim>\<open>mergeSort\<close> and
  \<^verbatim>\<open>parallelMergeSort\<close> (under every schedule of its goroutines) return a list that is
  non-decreasing and has the same multiset of values as \<open>D\<close>; \<^verbatim>\<open>parallelMergeSort\<close>
  does return (its \<^verbatim>\<open>wg.Wait()\<close> never blocks forever).
\<close>

theorem sort_sorted_permutation: "sorted (mergeSort D) \<and> mset (mergeSort D) = mset D \<and>
  (\<exists>out t. parallelMergeSort sched D = Some (out, t) \<and> sorted out \<and> mset out = mset D)"
  using parallelMergeSort_returns_mergeSort [of sched D]
  by (auto simp: sorted_mergeSort mset_mergeSort)

text \<open>
  Claim C10. Sorting is idempotent: \<^verbatim>\<open>mergeSort(mergeSort(D)) = mergeSort(D)\<close> for every
  list of integers \<open>D\<close>.
\<close>

theorem mergeSort_idempotent: "mergeSort (mergeSort D) = mergeSort D"
  by (rule sorted_mset_unique) (simp_all add: sorted_mergeSort mset_mergeSort)

text \<open>
  Claim C2. For every list of integers \<open>D\<close> and every schedule, \<^verbatim>\<open>parallelMergeSort\<close>
  returns, and what it returns is the list \<^verbatim>\<open>mergeSort\<close> returns on \<open>D\<close>, whatever the
  number of levels that fork.
\<close>

theorem parallel_equals_sequential:
  "map_option fst (parallelMergeSort sched D) = Some (mergeSort D)"
  using parallelMergeSort_returns_mergeSort [of sched D] by auto

lemma parallelMergeSort_total: "\<exists>out t. parallelMergeSort sched items = Some (out, t)"
  using parallelMergeSort_returns_mergeSort [of sched items] by blast

lemma parallelMergeSort_below_threshold:
  assumes "length items \<le> threshold"
  shows "\<exists>t. parallelMergeSort sched items = Some (mergeSort items, t) \<and> goroutines t = 0"
proof (cases "length items \<le> 1")
  case True
  then show ?thesis by (simp add: parallelMergeSort_direct mergeSort_small)
next
  case False
  then show ?thesis using assms by (simp add: parallelMergeSort_sequential)
qed

lemma parallelMergeSort_above_threshold:
  assumes "threshold < length items"
  shows "\<exists>l lt r rt.
     parallelMergeSort (\<lambda>p. sched (False # p)) (take (length items div 2) items) = Some (l, lt) \<and>
     parallelMergeSort (\<lambda>p. sched (True # p)) (drop (length items div 2) items) = Some (r, rt) \<and>
     take (length items div 2) items @ drop (length items div 2) items = items \<and>
     wait (run_goroutines (sched []) l r) = Some \<lparr>left = l, right = r, wg = 0\<rparr> \<and>
     parallelMergeSort sched items = Some (merge l r, ForkJoin (length items) lt rt)"
proof -
  obtain l lt where l: "parallelMergeSort (\<lambda>p. sched (False # p)) (take (length items div 2) items) = Some (l, lt)"
    using parallelMergeSort_total by blast
  obtain r rt where r: "parallelMergeSort (\<lambda>p. sched (True # p)) (drop (length items div 2) items) = Some (r, rt)"
    using parallelMergeSort_total by blast
  show ?thesis
    using l r parallelMergeSort_fork [OF assms l r] by (simp add: wait_run_goroutines)
qed

lemma parallelMergeSort_one_level:
  assumes "threshold < length items" and "length items \<le> 2 * threshold"
  shows "parallelMergeSort sched items =
           Some (mergeSort items,
                 ForkJoin (length items) (Sequential (length items div 2))
                   (Sequential (length items - length items div 2)))"
proof -
  let ?m = "length items div 2"
  have big: "1 < length items" using assms(1) by (simp add: threshold_def)
  have "1 < length (take ?m items)" and "length (take ?m items) \<le> threshold"
    using assms by (simp_all add: threshold_def)
  then have l: "parallelMergeSort (\<lambda>p. sched (False # p)) (take ?m items)
      = Some (mergeSort (take ?m items), Sequential (length (take ?m items)))"
    by (rule parallelMergeSort_sequential)
  have "1 < length (drop ?m items)" and "length (drop ?m items) \<le> threshold"
    using assms by (simp_all add: threshold_def)
  then have r: "parallelMergeSort (\<lambda>p. sched (True # p)) (drop ?m items)
      = Some (mergeSort (drop ?m items), Sequential (length (drop ?m items)))"
    by (rule parallelMergeSort_sequential)
  show ?thesis
    using parallelMergeSort_fork [OF assms(1) l r] by (simp add: mergeSort_unfold [OF big])
qed

lemma parallelMergeSort_250000:
  assumes "length items = 250000"
  shows "parallelMergeSort sched items =
           Some (mergeSort items,
                 ForkJoin 250000 (ForkJoin 125000 (Sequential 62500) (Sequential 62500))
                                 (ForkJoin 125000 (Sequential 62500) (Sequential 62500)))"
proof -
  let ?m = "length items div 2"
  have big: "threshold < length items" and one: "1 < length items"
    using assms by (simp_all add: threshold_def)
  have ll: "length (take ?m items) = 125000" and lr: "length (drop ?m items) = 125000"
    using assms by simp_all
  have l: "parallelMergeSort (\<lambda>p. sched (False # p)) (take ?m items)
      = Some (mergeSort (take ?m items), ForkJoin 125000 (Sequential 62500) (Sequential 62500))"
    using parallelMergeSort_one_level [of "take ?m items" "\<lambda>p. sched (False # p)"]
    by (simp only: ll) (simp add: threshold_def)
  have r: "parallelMergeSort (\<lambda>p. sched (True # p)) (drop ?m items)
      = Some (mergeSort (drop ?m items), ForkJoin 125000 (Sequential 62500) (Sequential 62500))"
    using parallelMergeSort_one_level [of "drop ?m items" "\<lambda>p. sched (True # p)"]
    by (simp only: lr) (simp add: threshold_def)
  show ?thesis
    using parallelMergeSort_fork [OF big l r] assms by (simp add: mergeSort_unfold [OF one])
qed

text \<open>
  Claim C3, as amended. The threshold is 100000. For every input of size
  \<open>n \<le> threshold\<close>, \<^verbatim>\<open>parallelMergeSort\<close> starts no goroutine and returns what
  \<^verbatim>\<open>mergeSort\<close> returns. For \<open>n > threshold\<close> it splits at the midpoint \<open>n div 2\<close>
  into two halves that together are the input, sorts each half in a goroutine of its own,
  and merges the two results once the wait group's counter is back to zero. For
  \<open>n = 250000\<close> there are two levels of fan-out: two goroutines on 125000 elements each,
  and, 125000 being above the threshold, each of them forks again into two goroutines on
  62500 elements, which sort sequentially.
\<close>

theorem fan_out_by_threshold:
  "threshold = 100000 \<and>
   (length items \<le> threshold \<longrightarrow>
      (\<exists>t. parallelMergeSort sched items = Some (mergeSort items, t) \<and> goroutines t = 0)) \<and>
   (threshold < length items \<longrightarrow>
      (\<exists>l lt r rt.
         parallelMergeSort (\<lambda>p. sched (False # p)) (take (length items div 2) items) = Some (l, lt) \<and>
         parallelMergeSort (\<lambda>p. sched (True # p)) (drop (length items div 2) items) = Some (r, rt) \<and>
         take (length items div 2) items @ drop (length items div 2) items = items \<and>
         wait (run_goroutines (sched []) l r) = Some \<lparr>left = l, right = r, wg = 0\<rparr> \<and>
         parallelMergeSort sched items = Some (merge l r, ForkJoin (length items) lt rt))) \<and>
   (length items = 250000 \<longrightarrow>
      map_option snd (parallelMergeSort sched items) =
        Some (ForkJoin 250000 (ForkJoin 125000 (Sequential 62500) (Sequential 62500))
                              (ForkJoin 125000 (Sequential 62500) (Sequential 62500))))"
  using parallelMergeSort_below_threshold [of items sched]
    parallelMergeSort_above_threshold [of items sched]
    parallelMergeSort_250000 [of items sched]
  by (simp add: threshold_def)

lemma mergeSort_scenario_1: "mergeSort [5, 3, 4, 1, 2] = [1, 2, 3, 4, 5]"
  by code_simp

text \<open>
  The theorem at two inputs: the list 5, 3, 4, 1, 2 (below the threshold) and a list of
  250000 elements (above it).
\<close>

theorem fan_out_by_threshold_witness:
  "parallelMergeSort left_always_first [5, 3, 4, 1, 2] = Some ([1, 2, 3, 4, 5], Sequential 5) \<and>
   (\<exists>l lt r rt. parallelMergeSort left_always_first (replicate 250000 7) =
                  Some (merge l r, ForkJoin 250000 lt rt)) \<and>
   map_option snd (parallelMergeSort left_always_first (replicate 250000 7)) =
     Some (ForkJoin 250000 (ForkJoin 125000 (Sequential 62500) (Sequential 62500))
                           (ForkJoin 125000 (Sequential 62500) (Sequential 62500)))"
proof -
  have small: "length [5, 3, 4, 1, 2 :: int] \<le> threshold" by (simp add: threshold_def)
  have "\<exists>t. parallelMergeSort left_always_first [5, 3, 4, 1, 2] = Some (mergeSort [5, 3, 4, 1, 2], t)
          \<and> goroutines t = 0"
    using fan_out_by_threshold [of "[5, 3, 4, 1, 2]" left_always_first] small by blast
  then have one: "parallelMergeSort left_always_first [5, 3, 4, 1, 2] = Some ([1, 2, 3, 4, 5], Sequential 5)"
    by (simp add: mergeSort_scenario_1 parallelMergeSort_sequential threshold_def)
  have len: "length (replicate 250000 (7::int)) = 250000" by simp
  then have big: "threshold < length (replicate 250000 (7::int))" by (simp add: threshold_def)
  have two: "\<exists>l lt r rt. parallelMergeSort left_always_first (replicate 250000 7) =
                  Some (merge l r, ForkJoin 250000 lt rt)"
    using fan_out_by_threshold [of "replicate 250000 7" left_always_first] big len by auto
  have three: "map_option snd (parallelMergeSort left_always_first (replicate 250000 7)) =
     Some (ForkJoin 250000 (ForkJoin 125000 (Sequential 62500) (Sequential 62500))
                           (ForkJoin 125000 (Sequential 62500) (Sequential 62500)))"
    using fan_out_by_threshold [of "replicate 250000 7" left_always_first] len by blast
  show ?thesis using one two three by blast
qed

text \<open>
  Claim C3 as it was stated fails: on 250000 elements the call tree is not one fork over two
  sequential sorts of 125000 elements. It has two levels of fan-out and six goroutines.
\<close>

theorem one_fan_out_level_counterexample:
  "map_option snd (parallelMergeSort left_always_first (replicate 250000 7)) \<noteq>
     Some (ForkJoin 250000 (Sequential 125000) (Sequential 125000)) \<and>
   map_option (fanout_levels \<circ> snd) (parallelMergeSort left_always_first (replicate 250000 7)) = Some 2 \<and>
   map_option (goroutines \<circ> snd) (parallelMergeSort left_always_first (replicate 250000 7)) = Some 6"
  by (simp add: parallelMergeSort_250000)

section \<open>Properties of the dataset generator\<close>

declare generate_loop.simps [simp del]

lemma Intn_20000:
  "Intn 20000 g = Inr (int (g 0) mod 20000, \<lambda>k. g (Suc k))"
  by (simp add: Intn_def)

lemma generate_loop_invariant:
  "0 \<le> i \<Longrightarrow> i \<le> sz \<Longrightarrow> length numbers = nat sz \<Longrightarrow>
   (\<forall>k < nat i. 0 \<le> numbers ! k \<and> numbers ! k < 20000) \<Longrightarrow>
   \<exists>ns g'. generate_loop sz i numbers g = Inr (ns, g') \<and> length ns = nat sz \<and>
           (\<forall>k < nat sz. 0 \<le> ns ! k \<and> ns ! k < 20000)"
proof (induction sz i numbers g rule: generate_loop.induct)
  case (1 sz i numbers g)
  show ?case
  proof (cases "i < sz")
    case True
    let ?v = "int (g 0) mod 20000"
    let ?g = "\<lambda>k. g (Suc k)"
    have inside: "0 \<le> i \<and> nat i < length numbers"
      using True "1.prems" by simp
    have v: "0 \<le> ?v \<and> ?v < 20000" by simp
    have filled: "\<forall>k < nat (i + 1). 0 \<le> numbers[nat i := ?v] ! k \<and> numbers[nat i := ?v] ! k < 20000"
    proof (intro allI impI)
      fix k assume "k < nat (i + 1)"
      then have "k < nat i \<or> k = nat i" using "1.prems"(1) by linarith
      then show "0 \<le> numbers[nat i := ?v] ! k \<and> numbers[nat i := ?v] ! k < 20000"
        using "1.prems"(4) inside v by (auto simp: nth_list_update)
    qed
    have "\<exists>ns g'. generate_loop sz (i + 1) (numbers[nat i := ?v]) ?g = Inr (ns, g') \<and>
            length ns = nat sz \<and> (\<forall>k < nat sz. 0 \<le> ns ! k \<and> ns ! k < 20000)"
    proof (rule "1.IH" [OF True Intn_20000 refl inside])
      show "0 \<le> i + 1" using "1.prems"(1) by simp
      show "i + 1 \<le> sz" using True by simp
      show "length (numbers[nat i := ?v]) = nat sz" using "1.prems"(3) by simp
      show "\<forall>k < nat (i + 1). 0 \<le> numbers[nat i := ?v] ! k \<and> numbers[nat i := ?v] ! k < 20000"
        by (rule filled)
    qed
    moreover have "generate_loop sz i numbers g = generate_loop sz (i + 1) (numbers[nat i := ?v]) ?g"
      using True inside by (subst generate_loop.simps) (simp add: Intn_20000)
    ultimately show ?thesis by simp
  next
    case False
    then have "i = sz" using "1.prems"(2) by simp
    moreover have "generate_loop sz i numbers g = Inr (numbers, g)"
      using False by (subst generate_loop.simps) simp
    ultimately show ?thesis using "1.prems"(3,4) by simp
  qed
qed

lemma generateRandomNumbers_returns:
  assumes "0 \<le> sint size64" and "8 * sint size64 \<le> maxAlloc"
  shows "\<exists>ns g'. generateRandomNumbers size64 g = Inr (ns, g') \<and>
           length ns = nat (sint size64) \<and>
           (\<forall>k < nat (sint size64). 0 \<le> ns ! k \<and> ns ! k < 20000)"
  using assms generate_loop_invariant [of 0 "sint size64" "replicate (nat (sint size64)) 0" g]
  by (simp add: generateRandomNumbers_def Let_def)






section \<open>Properties of the request id\<close>

declare digits.simps [simp del]

lemma digit_val_digit_char: "d < 10 \<Longrightarrow> digit_val (digit_char d) = Some d"
  by (simp add: digit_val_def digit_char_def)

lemma digit_char_not_sign:
  assumes "d < 10"
  shows "digit_char d \<noteq> CHR ''-''" and "digit_char d \<noteq> CHR ''+''"
  using digit_val_digit_char [OF assms] by (auto simp: digit_val_def)

lemma ParseUint_loop_append:
  "ParseUint_loop a xs = (b, None) \<Longrightarrow> ParseUint_loop a (xs @ ys) = ParseUint_loop b ys"
  by (induction xs arbitrary: a) (auto simp: Let_def split: option.splits if_splits)

lemma ParseUint_loop_digit:
  assumes "d < 10" and "a * 10 + d \<le> maxUint64"
  shows "ParseUint_loop a [digit_char d] = (a * 10 + d, None)"
proof -
  have "a < maxUint64 div 10 + 1" using assms by linarith
  then show ?thesis using assms by (simp add: digit_val_digit_char Let_def)
qed

lemma ParseUint_loop_digits:
  "n \<le> maxUint64 \<Longrightarrow> ParseUint_loop 0 (digits n) = (n, None)"
proof (induction n rule: digits.induct)
  case (1 n)
  show ?case
  proof (cases "n < 10")
    case True
    then show ?thesis
      using "1.prems" ParseUint_loop_digit [of n 0] by (subst digits.simps) simp
  next
    case False
    have "n div 10 \<le> maxUint64" using "1.prems" by linarith
    then have front: "ParseUint_loop 0 (digits (n div 10)) = (n div 10, None)"
      using "1.IH" [OF False] by simp
    have "ParseUint_loop 0 (digits (n div 10) @ [digit_char (n mod 10)])
            = ParseUint_loop (n div 10) [digit_char (n mod 10)]"
      by (rule ParseUint_loop_append [OF front])
    also have "\<dots> = (n div 10 * 10 + n mod 10, None)"
      using "1.prems" by (intro ParseUint_loop_digit) simp_all
    finally show ?thesis using False by (subst digits.simps) simp
  qed
qed

lemma digits_head: "digits n \<noteq> [] \<and> hd (digits n) \<noteq> CHR ''-'' \<and> hd (digits n) \<noteq> CHR ''+''"
proof (induction n rule: digits.induct)
  case (1 n)
  show ?case
  proof (cases "n < 10")
    case True
    then show ?thesis using digit_char_not_sign [of n] by (subst (1 2 3) digits.simps) simp
  next
    case False
    then show ?thesis using "1.IH" [OF False] by (subst (1 2 3) digits.simps) simp
  qed
qed

lemma ParseInt_Sprintf_d:
  assumes "- (2 ^ 63) \<le> x" and "x < 2 ^ 63"
  shows "ParseInt (Sprintf_d x) = (x, None)"
proof (cases "x < 0")
  case True
  let ?n = "nat (- x)"
  have n: "?n \<le> 2 ^ 63" using assms(1) True by simp
  then have "?n \<le> maxUint64" by (simp add: maxUint64_def)
  then have "ParseUint (digits ?n) = (?n, None)"
    using digits_head [of ?n] by (simp add: ParseUint_def ParseUint_loop_digits)
  then show ?thesis
    using True n by (simp add: ParseInt_def Sprintf_d_def)
next
  case False
  let ?n = "nat x"
  have n: "?n < 2 ^ 63" using assms(2) False by simp
  then have "?n \<le> maxUint64" by (simp add: maxUint64_def)
  then have "ParseUint (digits ?n) = (?n, None)"
    using digits_head [of ?n] by (simp add: ParseUint_def ParseUint_loop_digits)
  then show ?thesis
    using False n digits_head [of ?n] by (simp add: ParseInt_def Sprintf_d_def)
qed

lemma requestIDInt_is_timestamp:
  fixes t :: "64 word"
  shows "ParseInt (Sprintf_d (sint t)) = (sint t, None)"
proof (rule ParseInt_Sprintf_d)
  show "- (2 ^ 63) \<le> sint t" using sint_ge [of t] by simp
  show "sint t < 2 ^ 63" using sint_lt [of t] by simp
qed

lemma smod_2_eq_0: "(k::int) smod 2 = 0 \<longleftrightarrow> even k"
  by (auto simp: signed_modulo_int_def sgn_if)

section \<open>Properties of the request handler\<close>

lemmas handler_steps = span_def logger_def Header_Set_def WriteHeader_def Encode_def

lemma reject_result:
  "reject tracing requestID st warning err \<lparr>header = [], status_code = None, body = []\<rparr> s =
     (\<lparr>header = [(''Content-Type'', ''application/json'')], status_code = Some st,
       body = [\<lparr>RequestID = requestID, Status = ''error'', Duration = Literal []\<rparr>]\<rparr>,
      s\<lparr>errorCounter := errorCounter s + 1,
        logs := logs s @ [\<lparr>requestID_field = requestID, status_field = Some st,
                            entry_level = WarnLevel, msg = [Literal warning]\<rparr>],
        spans := spans s @
          (if tracing then [SetAttributes ''sort-handler'' ''http.status_code'' (AInt st),
                            SetAttributes ''sort-handler'' ''error'' (AString (Literal err)),
                            End ''sort-handler'']
           else [])\<rparr>)"
  by (simp add: reject_def handler_steps Let_def)


lemma length_mergeSort: "length (mergeSort items) = length items"
  using mset_mergeSort [of items] by (rule mset_eq_length)

lemma accept_result:
  assumes gen: "generateRandomNumbers (word_of_int size_const) (rand_src s) = Inr (numbers, g)"
    and len: "length numbers = 20000"
    and srt: "parallelMergeSort (scheduler e) numbers = Some (mergeSort numbers, t)"
  shows "accept e requestID \<lparr>header = [], status_code = None, body = []\<rparr> s =
       Inr (\<lparr>header = [(''Content-Type'', ''application/json'')], status_code = Some StatusOK,
             body = [\<lparr>RequestID = requestID, Status = ''success'',
                      Duration = Duration_String (since e)\<rparr>]\<rparr>,
            s\<lparr>arraySize := size_const,
              sortDuration := sortDuration s @ [since e],
              rand_src := g,
              calls := calls s @ [Call_generateRandomNumbers size_const, Call_parallelMergeSort numbers],
              logs := logs s @
                [\<lparr>requestID_field = requestID, status_field = None, entry_level = InfoLevel,
                   msg = [Literal ''Unsorted (first 10): '', Sprintf_v (take 10 numbers)]\<rparr>,
                 \<lparr>requestID_field = requestID, status_field = None, entry_level = InfoLevel,
                   msg = [Literal ''Sorted (first 10): '', Sprintf_v (take 10 (mergeSort numbers))]\<rparr>,
                 \<lparr>requestID_field = requestID, status_field = None, entry_level = InfoLevel,
                   msg = [Literal ''Finished sorting in '', Duration_String (since e)]\<rparr>,
                 \<lparr>requestID_field = requestID, status_field = Some StatusOK, entry_level = InfoLevel,
                   msg = [Literal ''Request completed'']\<rparr>],
              spans := spans s @
                (if tracer e then
                   [SetAttributes ''sort-handler'' ''array.size'' (AInt size_const),
                    Start ''generate-random-numbers'',
                    End ''generate-random-numbers'',
                    AddEvent ''sort-handler'' ''unsorted-array-ready''
                      [(''first_10_elements'', AString (Sprintf_v (take 10 numbers)))],
                    Start ''parallel-merge-sort'',
                    SetAttributes ''parallel-merge-sort'' ''duration_seconds''
                      (AFloat64_Seconds (since e)),
                    End ''parallel-merge-sort'',
                    AddEvent ''sort-handler'' ''sorted-array-ready''
                      [(''first_10_elements'', AString (Sprintf_v (take 10 (mergeSort numbers)))),
                       (''duration'', AString (Duration_String (since e)))],
                    SetAttributes ''sort-handler'' ''http.status_code'' (AInt StatusOK),
                    End ''sort-handler'']
                 else [])\<rparr>)"
proof -
  have cut1: "slice_to 10 numbers = Inr (take 10 numbers)"
    using len by (simp add: slice_to_def)
  have cut2: "slice_to 10 (mergeSort numbers) = Inr (take 10 (mergeSort numbers))"
    using len by (simp add: slice_to_def length_mergeSort)
  show ?thesis
    by (simp add: accept_def handler_steps Let_def gen srt cut1 cut2)
qed

lemma accept_inputs:
  "\<exists>numbers g t. generateRandomNumbers (word_of_int size_const) (rand_src s) = Inr (numbers, g) \<and>
     length numbers = 20000 \<and>
     parallelMergeSort (scheduler e) numbers = Some (mergeSort numbers, t)"
proof -
  have size64: "sint (word_of_int size_const :: 64 word) = 20000"
    by (simp add: size_const_def)
  then have "0 \<le> sint (word_of_int size_const :: 64 word)"
    and "8 * sint (word_of_int size_const :: 64 word) \<le> maxAlloc"
    by (simp_all add: maxAlloc_def)
  then obtain numbers g where "generateRandomNumbers (word_of_int size_const) (rand_src s) = Inr (numbers, g)"
    and "length numbers = nat (sint (word_of_int size_const :: 64 word))"
    using generateRandomNumbers_returns [of "word_of_int size_const" "rand_src s"] by blast
  moreover obtain t where "parallelMergeSort (scheduler e) numbers = Some (mergeSort numbers, t)"
    using parallelMergeSort_returns_mergeSort by blast
  ultimately show ?thesis using size64 by auto
qed

lemma requestIDInt_even:
  "fst (ParseInt (Sprintf_d (sint (now e)))) smod 2 = 0 \<longleftrightarrow> even (sint (now e))"
  by (simp add: requestIDInt_is_timestamp smod_2_eq_0)

lemma sortHandler_rejected:
  assumes "Method r \<noteq> MethodGet \<or> even (sint (now e))"
  shows "sortHandler e r s =
     Inr (\<lparr>header = [(''Content-Type'', ''application/json'')],
           status_code = Some (if Method r \<noteq> MethodGet then StatusMethodNotAllowed else StatusBadRequest),
           body = [\<lparr>RequestID = Sprintf_d (sint (now e)), Status = ''error'', Duration = Literal []\<rparr>]\<rparr>,
          s\<lparr>sortRequests := sortRequests s + 1,
            errorCounter := errorCounter s + 1,
            logs := logs s @
              [\<lparr>requestID_field = Sprintf_d (sint (now e)), status_field = None,
                 entry_level = InfoLevel, msg = [Literal ''Received sort request'']\<rparr>,
               \<lparr>requestID_field = Sprintf_d (sint (now e)),
                 status_field = Some (if Method r \<noteq> MethodGet then StatusMethodNotAllowed
                                      else StatusBadRequest),
                 entry_level = WarnLevel,
                 msg = [Literal (if Method r \<noteq> MethodGet then ''Method not allowed''
                                 else ''Request is even'')]\<rparr>],
            spans := spans s @
              (if tracer e then
                 [Start ''sort-handler'',
                  SetAttributes ''sort-handler'' ''request.id''
                    (AString (Literal (Sprintf_d (sint (now e))))),
                  SetAttributes ''sort-handler'' ''http.status_code''
                    (AInt (if Method r \<noteq> MethodGet then StatusMethodNotAllowed
                           else StatusBadRequest)),
                  SetAttributes ''sort-handler'' ''error''
                    (AString (Literal (if Method r \<noteq> MethodGet then ''method not allowed''
                                       else ''request id is even''))),
                  End ''sort-handler'']
               else [])\<rparr>)"
proof (cases "Method r \<noteq> MethodGet")
  case True
  then show ?thesis
    by (simp add: sortHandler_def reject_result Let_def span_def logger_def)
next
  case False
  then have "even (sint (now e))" using assms by simp
  then show ?thesis using False
    by (simp add: sortHandler_def reject_result Let_def span_def logger_def requestIDInt_even)
qed


lemma sortHandler_accepted:
  assumes get: "Method r = MethodGet" and odd: "odd (sint (now e))"
    and gen: "generateRandomNumbers (word_of_int size_const) (rand_src s) = Inr (numbers, g)"
    and len: "length numbers = 20000"
    and srt: "parallelMergeSort (scheduler e) numbers = Some (mergeSort numbers, t)"
  shows "sortHandler e r s =
     Inr (\<lparr>header = [(''Content-Type'', ''application/json'')], status_code = Some StatusOK,
           body = [\<lparr>RequestID = Sprintf_d (sint (now e)), Status = ''success'',
                    Duration = Duration_String (since e)\<rparr>]\<rparr>,
          s\<lparr>sortRequests := sortRequests s + 1,
            arraySize := size_const,
            sortDuration := sortDuration s @ [since e],
            rand_src := g,
            calls := calls s @ [Call_generateRandomNumbers size_const, Call_parallelMergeSort numbers],
            logs := logs s @
              [\<lparr>requestID_field = Sprintf_d (sint (now e)), status_field = None,
                 entry_level = InfoLevel, msg = [Literal ''Received sort request'']\<rparr>,
               \<lparr>requestID_field = Sprintf_d (sint (now e)), status_field = None,
                 entry_level = InfoLevel,
                 msg = [Literal ''Unsorted (first 10): '', Sprintf_v (take 10 numbers)]\<rparr>,
               \<lparr>requestID_field = Sprintf_d (sint (now e)), status_field = None,
                 entry_level = InfoLevel,
                 msg = [Literal ''Sorted (first 10): '', Sprintf_v (take 10 (mergeSort numbers))]\<rparr>,
               \<lparr>requestID_field = Sprintf_d (sint (now e)), status_field = None,
                 entry_level = InfoLevel,
                 msg = [Literal ''Finished sorting in '', Duration_String (since e)]\<rparr>,
               \<lparr>requestID_field = Sprintf_d (sint (now e)), status_field = Some StatusOK,
                 entry_level = InfoLevel, msg = [Literal ''Request completed'']\<rparr>],
            spans := spans s @
              (if tracer e then
                 [Start ''sort-handler'',
                  SetAttributes ''sort-handler'' ''request.id''
                    (AString (Literal (Sprintf_d (sint (now e))))),
                  SetAttributes ''sort-handler'' ''array.size'' (AInt size_const),
                  Start ''generate-random-numbers'',
                  End ''generate-random-numbers'',
                  AddEvent ''sort-handler'' ''unsorted-array-ready''
                    [(''first_10_elements'', AString (Sprintf_v (take 10 numbers)))],
                  Start ''parallel-merge-sort'',
                  SetAttributes ''parallel-merge-sort'' ''duration_seconds''
                    (AFloat64_Seconds (since e)),
                  End ''parallel-merge-sort'',
                  AddEvent ''sort-handler'' ''sorted-array-ready''
                    [(''first_10_elements'', AString (Sprintf_v (take 10 (mergeSort numbers)))),
                     (''duration'', AString (Duration_String (since e)))],
                  SetAttributes ''sort-handler'' ''http.status_code'' (AInt StatusOK),
                  End ''sort-handler'']
               else [])\<rparr>)"
proof -
  let ?id = "Sprintf_d (sint (now e))"
  let ?s4 = "(span (tracer e) (SetAttributes ''sort-handler'' ''request.id'' (AString (Literal ?id)))
               (logger ?id InfoLevel None [Literal ''Received sort request'']
                 (span (tracer e) (Start ''sort-handler'') s)))
             \<lparr>sortRequests := sortRequests s + 1\<rparr>"
  have src: "rand_src ?s4 = rand_src s" by (simp add: span_def logger_def)
  have acc: "sortHandler e r s = accept e ?id \<lparr>header = [], status_code = None, body = []\<rparr> ?s4"
    using get odd by (simp add: sortHandler_def Let_def requestIDInt_even span_def logger_def)
  show ?thesis
    unfolding acc
    by (subst accept_result [where numbers = numbers and g = g and t = t])
       (simp_all add: src gen len srt span_def logger_def)
qed

subsection \<open>The request ids 1000 and 1001\<close>

lemma digit_char_0_1: "digit_char 0 = CHR ''0''" "digit_char (Suc 0) = CHR ''1''"
  by code_simp+

lemma Sprintf_d_1001: "Sprintf_d 1001 = ''1001''"
  by (simp add: Sprintf_d_def digits.simps digit_char_0_1)

lemma Sprintf_d_1000: "Sprintf_d 1000 = ''1000''"
  by (simp add: Sprintf_d_def digits.simps digit_char_0_1)

subsection \<open>The claims about the handler\<close>

text \<open>
  Claim C5. Every call of the handler returns, and the counter \<^verbatim>\<open>sort_requests_total\<close>
  is then exactly one above its value before the call, whether the request was rejected
  (405 or 400) or sorted.
\<close>

theorem sort_requests_counted_once:
  "\<exists>w s'. sortHandler e r s = Inr (w, s') \<and> sortRequests s' = sortRequests s + 1"
proof (cases "Method r \<noteq> MethodGet \<or> even (sint (now e))")
  case True
  then show ?thesis by (simp add: sortHandler_rejected)
next
  case False
  obtain numbers g t where "generateRandomNumbers (word_of_int size_const) (rand_src s) = Inr (numbers, g)"
    and "length numbers = 20000"
    and "parallelMergeSort (scheduler e) numbers = Some (mergeSort numbers, t)"
    using accept_inputs by blast
  then show ?thesis using False by (simp add: sortHandler_accepted)
qed


lemma sortHandler_returns:
  "\<exists>w s'. sortHandler e r s = Inr (w, s')"
proof (cases "Method r \<noteq> MethodGet \<or> even (sint (now e))")
  case True
  then show ?thesis by (simp add: sortHandler_rejected)
next
  case False
  obtain numbers g t where "generateRandomNumbers (word_of_int size_const) (rand_src s) = Inr (numbers, g)"
    and "length numbers = 20000"
    and "parallelMergeSort (scheduler e) numbers = Some (mergeSort numbers, t)"
    using accept_inputs by blast
  then show ?thesis using False by (simp add: sortHandler_accepted)
qed

lemmas status_defs = StatusOK_def StatusBadRequest_def StatusMethodNotAllowed_def

lemmas outcome_defs = response_status_def response_body_def final_state_def

text \<open>
  Claim C4. A request whose method is not GET gets status 405 and the body
  \<^verbatim>\<open>Response{RequestID: requestID, Status: "error"}\<close>; a GET whose id (the decimal
  text of the arrival time in nanoseconds) is even gets status 400 and the same error body;
  a GET whose id is odd gets status 200 and the body
  \<^verbatim>\<open>Response{RequestID: requestID, Status: "success", Duration: duration.String()}\<close>.
  Each of the two rejections adds exactly one to the error counter.
\<close>

theorem sort_responses:
  "(Method r \<noteq> MethodGet \<longrightarrow>
      response_status (sortHandler e r s) = Some 405 \<and>
      response_body (sortHandler e r s) =
        [\<lparr>RequestID = Sprintf_d (sint (now e)), Status = ''error'', Duration = Literal []\<rparr>] \<and>
      map_option errorCounter (final_state (sortHandler e r s)) = Some (errorCounter s + 1)) \<and>
   (Method r = MethodGet \<and> even (sint (now e)) \<longrightarrow>
      response_status (sortHandler e r s) = Some 400 \<and>
      response_body (sortHandler e r s) =
        [\<lparr>RequestID = Sprintf_d (sint (now e)), Status = ''error'', Duration = Literal []\<rparr>] \<and>
      map_option errorCounter (final_state (sortHandler e r s)) = Some (errorCounter s + 1)) \<and>
   (Method r = MethodGet \<and> odd (sint (now e)) \<longrightarrow>
      response_status (sortHandler e r s) = Some 200 \<and>
      response_body (sortHandler e r s) =
        [\<lparr>RequestID = Sprintf_d (sint (now e)), Status = ''success'',
          Duration = Duration_String (since e)\<rparr>])"
proof (intro conjI impI)
  assume "Method r \<noteq> MethodGet"
  then have rej: "Method r \<noteq> MethodGet \<or> even (sint (now e))" by simp
  show "response_status (sortHandler e r s) = Some 405"
    using \<open>Method r \<noteq> MethodGet\<close> by (simp add: sortHandler_rejected [OF rej] outcome_defs status_defs)
  show "response_body (sortHandler e r s) =
        [\<lparr>RequestID = Sprintf_d (sint (now e)), Status = ''error'', Duration = Literal []\<rparr>]"
    by (simp add: sortHandler_rejected [OF rej] outcome_defs)
  show "map_option errorCounter (final_state (sortHandler e r s)) = Some (errorCounter s + 1)"
    by (simp add: sortHandler_rejected [OF rej] outcome_defs)
next
  assume a: "Method r = MethodGet \<and> even (sint (now e))"
  then have rej: "Method r \<noteq> MethodGet \<or> even (sint (now e))" by simp
  show "response_status (sortHandler e r s) = Some 400"
    using a by (simp add: sortHandler_rejected [OF rej] outcome_defs status_defs)
  show "response_body (sortHandler e r s) =
        [\<lparr>RequestID = Sprintf_d (sint (now e)), Status = ''error'', Duration = Literal []\<rparr>]"
    by (simp add: sortHandler_rejected [OF rej] outcome_defs)
  show "map_option errorCounter (final_state (sortHandler e r s)) = Some (errorCounter s + 1)"
    by (simp add: sortHandler_rejected [OF rej] outcome_defs)
next
  assume a: "Method r = MethodGet \<and> odd (sint (now e))"
  obtain numbers g t where in1: "generateRandomNumbers (word_of_int size_const) (rand_src s) = Inr (numbers, g)"
    and in2: "length numbers = 20000"
    and in3: "parallelMergeSort (scheduler e) numbers = Some (mergeSort numbers, t)"
    using accept_inputs by blast
  note acc = sortHandler_accepted [OF conjunct1 [OF a] conjunct2 [OF a] in1 in2 in3]
  show "response_status (sortHandler e r s) = Some 200"
    by (simp add: acc outcome_defs status_defs)
  show "response_body (sortHandler e r s) =
        [\<lparr>RequestID = Sprintf_d (sint (now e)), Status = ''success'',
          Duration = Duration_String (since e)\<rparr>]"
    by (simp add: acc outcome_defs)
qed

text \<open>
  The theorem at a POST, at a GET with the even id 1000 and at a GET with the odd id 1001.
\<close>

theorem sort_responses_witness:
  "response_status (sortHandler (sample_env 1001) \<lparr>Method = ''POST''\<rparr> sample_server) = Some 405 \<and>
   response_status (sortHandler (sample_env 1000) \<lparr>Method = ''GET''\<rparr> sample_server) = Some 400 \<and>
   response_body (sortHandler (sample_env 1000) \<lparr>Method = ''GET''\<rparr> sample_server) =
     [\<lparr>RequestID = ''1000'', Status = ''error'', Duration = Literal []\<rparr>] \<and>
   map_option errorCounter
     (final_state (sortHandler (sample_env 1000) \<lparr>Method = ''GET''\<rparr> sample_server)) = Some 21 \<and>
   response_status (sortHandler (sample_env 1001) \<lparr>Method = ''GET''\<rparr> sample_server) = Some 200 \<and>
   response_body (sortHandler (sample_env 1001) \<lparr>Method = ''GET''\<rparr> sample_server) =
     [\<lparr>RequestID = ''1001'', Status = ''success'', Duration = Duration_String 1500000\<rparr>]"
  using sort_responses [where r = "\<lparr>Method = ''POST''\<rparr>" and e = "sample_env 1001" and s = sample_server]
    sort_responses [where r = "\<lparr>Method = ''GET''\<rparr>" and e = "sample_env 1000" and s = sample_server]
    sort_responses [where r = "\<lparr>Method = ''GET''\<rparr>" and e = "sample_env 1001" and s = sample_server]
  by (simp add: sample_env_def sample_server_def MethodGet_def Sprintf_d_1001 Sprintf_d_1000)

text \<open>
  Claim C6. A GET with an odd id adds exactly one observation, the duration of its sort,
  to the histogram \<^verbatim>\<open>sort_duration_seconds\<close>; a rejected request (not a GET, or an even
  id) leaves the histogram as it was.
\<close>

theorem sort_duration_observed:
  "(Method r = MethodGet \<and> odd (sint (now e)) \<longrightarrow>
      map_option sortDuration (final_state (sortHandler e r s)) = Some (sortDuration s @ [since e])) \<and>
   (Method r \<noteq> MethodGet \<or> even (sint (now e)) \<longrightarrow>
      map_option sortDuration (final_state (sortHandler e r s)) = Some (sortDuration s))"
proof (intro conjI impI)
  assume a: "Method r = MethodGet \<and> odd (sint (now e))"
  obtain numbers g t where in1: "generateRandomNumbers (word_of_int size_const) (rand_src s) = Inr (numbers, g)"
    and in2: "length numbers = 20000"
    and in3: "parallelMergeSort (scheduler e) numbers = Some (mergeSort numbers, t)"
    using accept_inputs by blast
  note acc = sortHandler_accepted [OF conjunct1 [OF a] conjunct2 [OF a] in1 in2 in3]
  show "map_option sortDuration (final_state (sortHandler e r s)) = Some (sortDuration s @ [since e])"
    by (simp add: acc outcome_defs)
next
  assume rej: "Method r \<noteq> MethodGet \<or> even (sint (now e))"
  show "map_option sortDuration (final_state (sortHandler e r s)) = Some (sortDuration s)"
    by (simp add: sortHandler_rejected [OF rej] outcome_defs)
qed

text \<open>
  The theorem at a GET with the odd id 1001, a GET with the even id 1000 and a DELETE.
\<close>

theorem sort_duration_observed_witness:
  "map_option sortDuration
     (final_state (sortHandler (sample_env 1001) \<lparr>Method = ''GET''\<rparr> sample_server)) = Some [1500000] \<and>
   map_option sortDuration
     (final_state (sortHandler (sample_env 1000) \<lparr>Method = ''GET''\<rparr> sample_server)) = Some [] \<and>
   map_option sortDuration
     (final_state (sortHandler (sample_env 1001) \<lparr>Method = ''DELETE''\<rparr> sample_server)) = Some []"
  using sort_duration_observed [where r = "\<lparr>Method = ''GET''\<rparr>" and e = "sample_env 1001" and s = sample_server]
    sort_duration_observed [where r = "\<lparr>Method = ''GET''\<rparr>" and e = "sample_env 1000" and s = sample_server]
    sort_duration_observed [where r = "\<lparr>Method = ''DELETE''\<rparr>" and e = "sample_env 1001" and s = sample_server]
  by (simp add: sample_env_def sample_server_def MethodGet_def)

text \<open>
  Claim C7. A rejected request (not a GET, or an even id) makes the handler return with
  the error response written and no work done: neither \<^verbatim>\<open>generateRandomNumbers\<close> nor
  \<^verbatim>\<open>parallelMergeSort\<close> is called, the random source is where it was, the array-size
  gauge and the duration histogram are untouched, and the only span operations are those
  on the request's own span \<^verbatim>\<open>sort-handler\<close>: no generation span and no sort span.
\<close>

theorem rejection_does_no_work:
  assumes "Method r \<noteq> MethodGet \<or> even (sint (now e))"
  shows "\<exists>w s'. sortHandler e r s = Inr (w, s') \<and>
     status_code w = Some (if Method r \<noteq> MethodGet then 405 else 400) \<and>
     body w = [\<lparr>RequestID = Sprintf_d (sint (now e)), Status = ''error'', Duration = Literal []\<rparr>] \<and>
     calls s' = calls s \<and> rand_src s' = rand_src s \<and>
     arraySize s' = arraySize s \<and> sortDuration s' = sortDuration s \<and>
     spans s' = spans s @
       (if tracer e then
          [Start ''sort-handler'',
           SetAttributes ''sort-handler'' ''request.id'' (AString (Literal (Sprintf_d (sint (now e))))),
           SetAttributes ''sort-handler'' ''http.status_code''
             (AInt (if Method r \<noteq> MethodGet then 405 else 400)),
           SetAttributes ''sort-handler'' ''error''
             (AString (Literal (if Method r \<noteq> MethodGet then ''method not allowed''
                                else ''request id is even''))),
           End ''sort-handler'']
        else [])"
  by (simp add: sortHandler_rejected [OF assms] status_defs)

text \<open>The theorem at a GET with the even id 1000.\<close>

theorem rejection_does_no_work_witness:
  "\<exists>w s'. sortHandler (sample_env 1000) \<lparr>Method = ''GET''\<rparr> sample_server = Inr (w, s') \<and>
     status_code w = Some 400 \<and>
     body w = [\<lparr>RequestID = ''1000'', Status = ''error'', Duration = Literal []\<rparr>] \<and>
     calls s' = [] \<and> rand_src s' = sample_source \<and> arraySize s' = 0 \<and> sortDuration s' = [] \<and>
     spans s' =
       [Start ''sort-handler'',
        SetAttributes ''sort-handler'' ''request.id'' (AString (Literal ''1000'')),
        SetAttributes ''sort-handler'' ''http.status_code'' (AInt 400),
        SetAttributes ''sort-handler'' ''error'' (AString (Literal ''request id is even'')),
        End ''sort-handler'']"
  using rejection_does_no_work [where r = "\<lparr>Method = ''GET''\<rparr>" and e = "sample_env 1000" and s = sample_server]
  by (simp add: sample_env_def sample_server_def MethodGet_def Sprintf_d_1000)

text \<open>
  Claim C8, as amended. The integer the handler tests is the arrival time itself: parsing
  the request id gives back the timestamp it was printed from, without error. Admission is
  decided by the method and by the parity of that integer, and by nothing else: a request
  that is not a GET is rejected with 405 whatever the parity of its id, a GET with an even
  id is rejected with 400, and a GET with an odd id is accepted with 200.
\<close>

theorem admission_by_method_and_parity:
  "ParseInt (Sprintf_d (sint (now e))) = (sint (now e), None) \<and>
   response_status (sortHandler e r s) =
     Some (if Method r \<noteq> MethodGet then 405 else if even (sint (now e)) then 400 else 200)"
proof (cases "Method r \<noteq> MethodGet \<or> even (sint (now e))")
  case True
  then show ?thesis
    by (auto simp: sortHandler_rejected [OF True] outcome_defs status_defs requestIDInt_is_timestamp)
next
  case False
  obtain numbers g t where in1: "generateRandomNumbers (word_of_int size_const) (rand_src s) = Inr (numbers, g)"
    and in2: "length numbers = 20000"
    and in3: "parallelMergeSort (scheduler e) numbers = Some (mergeSort numbers, t)"
    using accept_inputs by blast
  from False have get: "Method r = MethodGet" and odd: "odd (sint (now e))" by simp_all
  show ?thesis
    using get odd
    by (simp add: sortHandler_accepted [OF get odd in1 in2 in3] outcome_defs status_defs
          requestIDInt_is_timestamp)
qed


text \<open>
  Claim C8 as it was stated fails: parity is not the sole criterion over all requests.
  Two requests with the same odd id 1001, hence the same parity, are treated differently:
  the GET is accepted, the POST is rejected.
\<close>

theorem parity_sole_criterion_counterexample:
  "odd (sint (now (sample_env 1001))) \<and>
   response_status (sortHandler (sample_env 1001) \<lparr>Method = ''GET''\<rparr> sample_server) = Some 200 \<and>
   response_status (sortHandler (sample_env 1001) \<lparr>Method = ''POST''\<rparr> sample_server) = Some 405"
proof -
  let ?e = "sample_env 1001"
  have odd: "odd (sint (now ?e))" by (simp add: sample_env_def)
  have post: "Method \<lparr>Method = ''POST''\<rparr> \<noteq> MethodGet \<or> even (sint (now ?e))"
    by (simp add: MethodGet_def)
  have get: "Method \<lparr>Method = ''GET''\<rparr> = MethodGet" by (simp add: MethodGet_def)
  obtain numbers g t where in1: "generateRandomNumbers (word_of_int size_const) (rand_src sample_server) = Inr (numbers, g)"
    and in2: "length numbers = 20000"
    and in3: "parallelMergeSort (scheduler ?e) numbers = Some (mergeSort numbers, t)"
    using accept_inputs by blast
  have "response_status (sortHandler ?e \<lparr>Method = ''GET''\<rparr> sample_server) = Some 200"
    by (simp add: sortHandler_accepted [OF get odd in1 in2 in3] outcome_defs status_defs)
  moreover have "response_status (sortHandler ?e \<lparr>Method = ''POST''\<rparr> sample_server) = Some 405"
    by (simp add: sortHandler_rejected [OF post] outcome_defs status_defs MethodGet_def)
  ultimately show ?thesis using odd by simp
qed

end
